theory Spec2Isabelle
  imports Main
begin

section \<open>Python values used by directives.py\<close>

text \<open>
  A Python \<open>str\<close> is a sequence of Unicode code points, so it is modelled as a list of
  natural numbers. Attribute names and the GnuCash account type tags are ASCII
  identifiers and are kept as HOL strings.
\<close>

type_synonym pystr = "nat list"

definition str :: "string \<Rightarrow> pystr" where
  "str s = map of_char s"

text \<open>The exceptions that the functions of directives.py can raise or catch.\<close>

datatype error =
    KeyError
  | IndexError
  | AttributeError
  | UnboundLocalError
  | DivisionByZero
  | InvalidOperation

definition bind :: "error + 'a \<Rightarrow> ('a \<Rightarrow> error + 'b) \<Rightarrow> error + 'b" where
  "bind r f = (case r of Inl e \<Rightarrow> Inl e | Inr x \<Rightarrow> f x)"

subsection \<open>decimal.Decimal\<close>

text \<open>
  A finite \<open>decimal.Decimal\<close> is a sign, a coefficient and an exponent
  (\<open>as_tuple()\<close>); its value is \<open>(-1)^sign * coefficient * 10^exponent\<close>.
  Arithmetic is the one of Python's default context: results are rounded to 28
  significant digits with ROUND_HALF_EVEN, and DivisionByZero and InvalidOperation
  are trapped, that is, raised. The special values (NaN, Infinity) and the exponent
  limits of the context are not part of the model.
\<close>

datatype decimal = Decimal (d_sign: bool) (d_int: nat) (d_exp: int)

definition prec :: nat where
  "prec = 28"

fun ndigits :: "nat \<Rightarrow> nat" where
  "ndigits n = (if n < 10 then 1 else Suc (ndigits (n div 10)))"

declare ndigits.simps [simp del]

definition round_half_even :: "nat \<Rightarrow> nat \<Rightarrow> nat" where
  "round_half_even c k =
     (let q = c div 10 ^ k; r = c mod 10 ^ k; h = 5 * 10 ^ (k - 1)
      in if h < r \<or> (r = h \<and> odd q) then q + 1 else q)"

definition dec_fix :: "decimal \<Rightarrow> decimal" where
  "dec_fix d =
     (if ndigits (d_int d) \<le> prec then d
      else let k = ndigits (d_int d) - prec;
               q = round_half_even (d_int d) k
           in if prec < ndigits q
              then Decimal (d_sign d) (q div 10) (d_exp d + int k + 1)
              else Decimal (d_sign d) q (d_exp d + int k))"

definition is_zero :: "decimal \<Rightarrow> bool" where
  "is_zero d = (d_int d = 0)"

definition dec_mul :: "decimal \<Rightarrow> decimal \<Rightarrow> decimal" where
  "dec_mul x y =
     dec_fix (Decimal (d_sign x \<noteq> d_sign y) (d_int x * d_int y) (d_exp x + d_exp y))"

definition dec_abs :: "decimal \<Rightarrow> decimal" where
  "dec_abs x = dec_fix (Decimal False (d_int x) (d_exp x))"

text \<open>
  The loop of an exact division, which brings the exponent as close to the ideal
  exponent as trailing zeros of the coefficient allow.
\<close>

function strip_zeros :: "nat \<Rightarrow> int \<Rightarrow> int \<Rightarrow> nat \<times> int" where
  "strip_zeros coeff e ideal =
     (if e < ideal \<and> coeff mod 10 = 0 then strip_zeros (coeff div 10) (e + 1) ideal
      else (coeff, e))"
  by pat_completeness auto
termination
  by (relation "measure (\<lambda>(c, e, i). nat (i - e))") auto

declare strip_zeros.simps [simp del]

definition dec_div :: "decimal \<Rightarrow> decimal \<Rightarrow> error + decimal" where
  "dec_div x y =
     (let sign = (d_sign x \<noteq> d_sign y) in
      if d_int y = 0 then
        (if d_int x = 0 then Inl InvalidOperation else Inl DivisionByZero)
      else if d_int x = 0 then
        Inr (dec_fix (Decimal sign 0 (d_exp x - d_exp y)))
      else
        let shift = int (ndigits (d_int y)) - int (ndigits (d_int x)) + int prec + 1;
            e = d_exp x - d_exp y - shift;
            num = (if 0 \<le> shift then d_int x * 10 ^ nat shift else d_int x);
            den = (if 0 \<le> shift then d_int y else d_int y * 10 ^ nat (- shift));
            coeff = num div den;
            remainder = num mod den;
            (coeff', e') =
              (if remainder \<noteq> 0
               then (if coeff mod 5 = 0 then coeff + 1 else coeff, e)
               else strip_zeros coeff e (d_exp x - d_exp y))
        in Inr (dec_fix (Decimal sign coeff' e')))"

section \<open>The GnuCash entities read by the factories\<close>

text \<open>
  The objects of a GnuCash book, with the attributes that directives.py reads. Two
  commodities are compared with \<open>==\<close>, which on these objects is identity: \<open>guid\<close>
  stands for the identity of the object, so that equal records are one object. A text
  attribute may be \<open>None\<close>, and so may the commodity of an account, which \<open>Open\<close>
  tests for. Quantity and value of a split are decimals.
\<close>

record commodity =
  guid :: nat
  mnemonic :: pystr
  fullname :: "pystr option"

record account =
  fullname :: pystr
  type :: string
  code :: "pystr option"
  description :: "pystr option"
  commodity :: "commodity option"

record txn =
  post_date :: nat
  description :: "pystr option"
  num :: "pystr option"
  "notes" :: "pystr option"
  currency :: commodity

record split =
  account :: account
  transaction :: txn
  quantity :: decimal
  "value" :: decimal
  memo :: "pystr option"

section \<open>The Beancount data the factories build\<close>

record amount =
  number :: decimal
  amount_currency :: pystr

section \<open>Characters and strings\<close>

text \<open>
  The pattern \<open>\w\<close> and \<open>str.upper\<close> consult Python's Unicode database, which is
  not part of the repository. On ASCII both are written out; beyond ASCII they are a
  parameter of the model: \<open>uni_word\<close> says which code points from 128 on are word
  characters, \<open>uni_upper\<close> gives the upper-case form of such a code point, which may be
  several code points long.
\<close>

record unicode_db =
  uni_word :: "nat \<Rightarrow> bool"
  uni_upper :: "nat \<Rightarrow> pystr"

definition ascii_word :: "nat \<Rightarrow> bool" where
  "ascii_word c =
     ((48 \<le> c \<and> c \<le> 57) \<or> (65 \<le> c \<and> c \<le> 90) \<or> c = 95 \<or> (97 \<le> c \<and> c \<le> 122))"

definition is_word :: "unicode_db \<Rightarrow> nat \<Rightarrow> bool" where
  "is_word U c = (if c < 128 then ascii_word c else uni_word U c)"

definition upper :: "unicode_db \<Rightarrow> nat \<Rightarrow> pystr" where
  "upper U c =
     (if c < 128 then (if 97 \<le> c \<and> c \<le> 122 then [c - 32] else [c])
      else uni_upper U c)"

text \<open>
  \<open>s.split(sep)\<close> for a one-character separator, and \<open>sep.join(parts)\<close>. A split
  has at least one part, so the last case of \<open>split_on\<close> is never taken.
\<close>

fun split_on :: "'a \<Rightarrow> 'a list \<Rightarrow> 'a list list" where
  "split_on sep [] = [[]]"
| "split_on sep (c # cs) =
     (if c = sep then [] # split_on sep cs
      else (case split_on sep cs of
              p # ps \<Rightarrow> (c # p) # ps
            | [] \<Rightarrow> [[c]]))"

fun join :: "'a \<Rightarrow> 'a list list \<Rightarrow> 'a list" where
  "join sep [] = []"
| "join sep [p] = p"
| "join sep (p # q # ps) = p @ sep # join sep (q # ps)"

text \<open>
  \<open>re.sub(pattern, repl, s)\<close> for a pattern that is one character class and a
  replacement of one character.
\<close>

definition re_sub :: "(nat \<Rightarrow> bool) \<Rightarrow> nat \<Rightarrow> pystr \<Rightarrow> pystr" where
  "re_sub pattern repl s = map (\<lambda>c. if pattern c then repl else c) s"

section \<open>Metadata\<close>

text \<open>
  \<open>meta_from(obj, fields)\<close> reads the named attributes of an object and keeps those
  with a true value. The attributes it is asked for are optional texts: \<open>None\<close> and the
  empty string are false, every other string is true. The first argument of the model
  is \<open>getattr\<close> applied to the object. The dictionary is the list of its items in
  insertion order.
\<close>

type_synonym meta = "(string \<times> pystr) list"

fun dict_set :: "meta \<Rightarrow> string \<Rightarrow> pystr \<Rightarrow> meta" where
  "dict_set [] k v = [(k, v)]"
| "dict_set ((k', v') # d) k v = (if k' = k then (k, v) # d else (k', v') # dict_set d k v)"

definition truthy :: "pystr option \<Rightarrow> bool" where
  "truthy v = (case v of None \<Rightarrow> False | Some s \<Rightarrow> s \<noteq> [])"

fun meta_items :: "(string \<Rightarrow> error + pystr option) \<Rightarrow> string list \<Rightarrow> meta \<Rightarrow> error + meta" where
  "meta_items get [] d = Inr d"
| "meta_items get (k # ks) d =
     bind (get k) (\<lambda>v. meta_items get ks (if truthy v then dict_set d k (the v) else d))"

definition meta_from :: "(string \<Rightarrow> error + pystr option) \<Rightarrow> string \<Rightarrow> error + meta" where
  "meta_from get fields' = meta_items get (split_on CHR '' '' fields') []"

definition commodity_getattr :: "commodity \<Rightarrow> string \<Rightarrow> error + pystr option" where
  "commodity_getattr c k =
     (if k = ''fullname'' then Inr (commodity.fullname c)
      else if k = ''mnemonic'' then Inr (Some (mnemonic c))
      else Inl AttributeError)"

definition account_getattr :: "account \<Rightarrow> string \<Rightarrow> error + pystr option" where
  "account_getattr a k =
     (if k = ''code'' then Inr (code a)
      else if k = ''description'' then Inr (account.description a)
      else if k = ''fullname'' then Inr (Some (fullname a))
      else Inl AttributeError)"

definition txn_getattr :: "txn \<Rightarrow> string \<Rightarrow> error + pystr option" where
  "txn_getattr t k =
     (if k = ''num'' then Inr (num t)
      else if k = ''notes'' then Inr (notes t)
      else if k = ''description'' then Inr (description t)
      else Inl AttributeError)"

definition split_getattr :: "split \<Rightarrow> string \<Rightarrow> error + pystr option" where
  "split_getattr s k =
     (if k = ''memo'' then Inr (memo s) else Inl AttributeError)"

section \<open>Accounts and Open\<close>

text \<open>
  Modelled from the spec: \<open>DEFAULT_ACCOUNT_TYPES\<close> of \<open>beancount.core.account_types\<close>,
  the names of the five root accounts.
\<close>

record account_types =
  assets :: pystr
  liabilities :: pystr
  equity :: pystr
  income :: pystr
  expenses :: pystr

definition ACCOUNT_TYPES :: account_types where
  "ACCOUNT_TYPES = \<lparr>assets = str ''Assets'', liabilities = str ''Liabilities'',
                     equity = str ''Equity'', income = str ''Income'',
                     expenses = str ''Expenses''\<rparr>"

text \<open>
  The map from the GnuCash account types to the Beancount roots. A value is \<open>None\<close>
  for ROOT; a key that is missing raises KeyError at the lookup.
\<close>

definition get_account_types_map :: "account_types \<Rightarrow> (string \<rightharpoonup> pystr option)" where
  "get_account_types_map acc_types =
     (let pairs =
        [(''ROOT'', None),
         (''ASSET BANK CASH MUTUAL RECEIVABLE STOCK TRADING'', Some (assets acc_types)),
         (''EQUITY'', Some (equity acc_types)),
         (''EXPENSE'', Some (expenses acc_types)),
         (''INCOME'', Some (income acc_types)),
         (''LIABILITY CREDIT PAYABLE'', Some (liabilities acc_types))]
      in fold (\<lambda>(gnc, bc) d. d(gnc \<mapsto> bc))
           (concat (map (\<lambda>(seq, bc). map (\<lambda>gnc. (gnc, bc)) (split_on CHR '' '' seq)) pairs))
           Map.empty)"

definition ACCOUNT_TYPES_MAP :: "string \<rightharpoonup> pystr option" where
  "ACCOUNT_TYPES_MAP = get_account_types_map ACCOUNT_TYPES"

definition ACCOUNT_SEP :: nat where
  "ACCOUNT_SEP = 58"

definition hyphen :: nat where
  "hyphen = 45"

definition INVALID_ACCOUNT_CHARS :: "unicode_db \<Rightarrow> nat \<Rightarrow> bool" where
  "INVALID_ACCOUNT_CHARS U c = (\<not> (is_word U c \<or> c = 95 \<or> c = ACCOUNT_SEP))"

text \<open>
  The generator \<open>(p[0].upper() + p[1:] for p in parts if p)\<close>: \<open>None\<close> and the empty
  string are false and are skipped.
\<close>

fun capitalized :: "unicode_db \<Rightarrow> pystr option list \<Rightarrow> pystr list" where
  "capitalized U [] = []"
| "capitalized U (None # parts) = capitalized U parts"
| "capitalized U (Some [] # parts) = capitalized U parts"
| "capitalized U (Some (c # cs) # parts) = (upper U c @ cs) # capitalized U parts"

definition insert_root :: "pystr option \<Rightarrow> pystr option list \<Rightarrow> error + pystr option list" where
  "insert_root acc_type parts =
     (case parts of
        [] \<Rightarrow> Inl IndexError
      | p # ps \<Rightarrow> Inr (if p \<noteq> acc_type then acc_type # parts else parts))"

definition account_name :: "unicode_db \<Rightarrow> account \<Rightarrow> error + pystr" where
  "account_name U a =
     (let name = re_sub (INVALID_ACCOUNT_CHARS U) hyphen (fullname a)
      in case ACCOUNT_TYPES_MAP (type a) of
           None \<Rightarrow> Inl KeyError
         | Some acc_type \<Rightarrow>
             bind (insert_root acc_type (map Some (split_on ACCOUNT_SEP name)))
               (\<lambda>parts. Inr (join ACCOUNT_SEP (capitalized U parts))))"

record open_directive =
  open_meta :: meta
  open_date :: nat
  open_account :: pystr
  open_currencies :: "pystr list option"
  open_booking :: "unit option"

definition Open :: "unicode_db \<Rightarrow> account \<Rightarrow> nat \<Rightarrow> error + open_directive" where
  "Open U a date' =
     bind (meta_from (account_getattr a) ''code description'') (\<lambda>meta.
     bind (account_name U a) (\<lambda>name.
     Inr \<lparr>open_meta = meta, open_date = date', open_account = name,
          open_currencies = (case commodity a of None \<Rightarrow> None | Some c \<Rightarrow> Some [mnemonic c]),
          open_booking = None\<rparr>))"

record commodity_directive =
  commodity_meta :: meta
  commodity_date :: nat
  commodity_currency :: pystr

definition Commodity :: "commodity \<Rightarrow> nat \<Rightarrow> error + commodity_directive" where
  "Commodity c date' =
     bind (meta_from (commodity_getattr c) ''fullname'') (\<lambda>meta.
     Inr \<lparr>commodity_meta = meta, commodity_date = date', commodity_currency = mnemonic c\<rparr>)"

section \<open>Postings: units and price\<close>

definition units_for :: "split \<Rightarrow> error + amount" where
  "units_for s =
     (let number = dec_mul (quantity s) (Decimal False 10 (- 1))
      in case commodity (account s) of
           None \<Rightarrow> Inl AttributeError
         | Some c \<Rightarrow> Inr \<lparr>number = number, amount_currency = mnemonic c\<rparr>)"

definition price_for :: "split \<Rightarrow> error + amount option" where
  "price_for s =
     (let acc_comm = commodity (account s);
          txn_comm = currency (transaction s)
      in if acc_comm = Some txn_comm then Inr None
         else
           bind (case bind (dec_div (value s) (quantity s)) (\<lambda>q. Inr (dec_abs q)) of
                   Inr x \<Rightarrow> Inr x
                 | Inl e \<Rightarrow>
                     if e = DivisionByZero \<or> e = InvalidOperation
                     then (if is_zero (quantity s) then Inr (Decimal False 0 0)
                           else Inl UnboundLocalError)
                     else Inl e)
             (\<lambda>number. Inr (Some \<lparr>number = number, amount_currency = mnemonic txn_comm\<rparr>)))"


record posting =
  posting_account :: pystr
  units :: amount
  cost :: "unit option"
  price :: "amount option"
  flag :: "pystr option"
  posting_meta :: meta

definition Posting :: "unicode_db \<Rightarrow> split \<Rightarrow> error + posting" where
  "Posting U s =
     bind (meta_from (split_getattr s) ''memo'') (\<lambda>meta.
     bind (account_name U (account s)) (\<lambda>name.
     bind (units_for s) (\<lambda>units'.
     bind (price_for s) (\<lambda>price'.
     Inr \<lparr>posting_account = name, units = units', cost = None, price = price',
          flag = None, posting_meta = meta\<rparr>))))"

record transaction_directive =
  txn_meta :: meta
  txn_date :: nat
  txn_flag :: pystr
  payee :: pystr
  narration :: "pystr option"
  tags :: "unit option"
  links :: "unit option"
  postings :: "posting list"

definition Transaction :: "txn \<Rightarrow> posting list option \<Rightarrow> error + transaction_directive" where
  "Transaction t postings' =
     bind (meta_from (txn_getattr t) ''num notes'') (\<lambda>meta.
     Inr \<lparr>txn_meta = meta, txn_date = post_date t, txn_flag = str ''*'', payee = [],
          narration = description t, tags = None, links = None,
          postings = (case postings' of None \<Rightarrow> [] | Some ps \<Rightarrow> ps)\<rparr>)"

section \<open>Example entities\<close>

definition USD :: commodity where
  "USD = \<lparr>guid = 1, mnemonic = str ''USD'', commodity.fullname = Some (str ''US Dollar'')\<rparr>"

definition EUR :: commodity where
  "EUR = \<lparr>guid = 2, mnemonic = str ''EUR'', commodity.fullname = None\<rparr>"

definition rent_txn :: txn where
  "rent_txn = \<lparr>post_date = 20240101, description = Some (str ''Rent''), num = None,
                notes = Some [], currency = USD\<rparr>"

definition euro_account :: account where
  "euro_account = \<lparr>fullname = str ''Assets:Euro Cash'', type = ''CASH'', code = Some [],
                    account.description = Some (str ''wallet''), commodity = Some EUR\<rparr>"

definition checking_account :: account where
  "checking_account = \<lparr>fullname = str ''Assets:Checking'', type = ''BANK'', code = Some (str ''1010''),
                account.description = None, commodity = Some USD\<rparr>"

definition split_of :: "account \<Rightarrow> decimal \<Rightarrow> decimal \<Rightarrow> split" where
  "split_of a q v = \<lparr>account = a, transaction = rent_txn, quantity = q, value = v,
                      memo = None\<rparr>"

text \<open>
  A Unicode database with no word character beyond ASCII. On an ASCII path every
  database gives the same name.
\<close>

definition ascii_db :: unicode_db where
  "ascii_db = \<lparr>uni_word = (\<lambda>c. False), uni_upper = (\<lambda>c. [c])\<rparr>"

section \<open>Notions the properties are stated with\<close>




text \<open>
  A metadata dictionary is sound for an object when each of its items holds the value
  of the attribute it is named after, and that value is a string that is not empty.
\<close>

definition meta_ok :: "(string \<Rightarrow> error + pystr option) \<Rightarrow> meta \<Rightarrow> bool" where
  "meta_ok get d = list_all (\<lambda>(k, v). get k = Inr (Some v) \<and> v \<noteq> []) d"

definition memo_split :: split where
  "memo_split = \<lparr>account = euro_account, transaction = rent_txn,
                  quantity = Decimal False 4 0, value = Decimal True 10 0,
                  memo = Some (str ''cash'')\<rparr>"

definition memo_posting :: posting where
  "memo_posting =
     \<lparr>posting_account = str ''Assets:Euro-Cash'',
      units = \<lparr>number = Decimal False 40 (- 1), amount_currency = str ''EUR''\<rparr>,
      cost = None,
      price = Some \<lparr>number = Decimal False 25 (- 1), amount_currency = str ''USD''\<rparr>,
      flag = None,
      posting_meta = [(''memo'', str ''cash'')]\<rparr>"

definition euro_open :: open_directive where
  "euro_open =
     \<lparr>open_meta = [(''description'', str ''wallet'')], open_date = 20240101,
      open_account = str ''Assets:Euro-Cash'', open_currencies = Some [str ''EUR''],
      open_booking = None\<rparr>"

text \<open>
  The path of an account with its invalid characters replaced, as the first line of
  \<open>account_name\<close> computes it, and a part with its first character in upper case.
  The character-sanitized, case-normalized form of a path is the path of these parts.
\<close>

definition sanitized :: "unicode_db \<Rightarrow> pystr \<Rightarrow> pystr" where
  "sanitized U path = re_sub (INVALID_ACCOUNT_CHARS U) hyphen path"

definition capitalize :: "unicode_db \<Rightarrow> pystr \<Rightarrow> pystr" where
  "capitalize U p = (case p of [] \<Rightarrow> [] | c # cs \<Rightarrow> upper U c @ cs)"

definition normalized_path :: "unicode_db \<Rightarrow> pystr \<Rightarrow> pystr" where
  "normalized_path U path =
     join ACCOUNT_SEP (map (capitalize U) (split_on ACCOUNT_SEP (sanitized U path)))"

text \<open>The five roots of Beancount and the thirteen account types of GnuCash below ROOT.\<close>

definition roots :: "pystr list" where
  "roots = [str ''Assets'', str ''Equity'', str ''Expenses'', str ''Income'', str ''Liabilities'']"

definition account_categories :: "string list" where
  "account_categories =
     [''ASSET'', ''BANK'', ''CASH'', ''MUTUAL'', ''RECEIVABLE'', ''STOCK'', ''TRADING'',
      ''EQUITY'', ''EXPENSE'', ''INCOME'', ''LIABILITY'', ''CREDIT'', ''PAYABLE'']"

text \<open>
  What the properties need of the Unicode database. In a well-formed database the
  upper-case form of a word character is not empty, has no colon, and starts with a
  character that is its own upper-case form; Python's database is well-formed. A
  database keeps words when the upper-case form of a word character consists of word
  characters; it does on ASCII, and Python's does on all but a few code points, such
  as U+01F0, whose upper-case form is J followed by the combining caron U+030C.
\<close>

definition upper_wellformed :: "unicode_db \<Rightarrow> bool" where
  "upper_wellformed U =
     (\<forall>c. 128 \<le> c \<and> uni_word U c \<longrightarrow>
        uni_upper U c \<noteq> [] \<and> ACCOUNT_SEP \<notin> set (uni_upper U c)
        \<and> upper U (hd (uni_upper U c)) = [hd (uni_upper U c)])"


text \<open>The upper-case letters of ASCII, A to Z.\<close>

definition ascii_upper_case :: "nat \<Rightarrow> bool" where
  "ascii_upper_case c = (65 \<le> c \<and> c \<le> 90)"


definition account_of :: "pystr \<Rightarrow> string \<Rightarrow> account" where
  "account_of path t = \<lparr>fullname = path, type = t, code = None, account.description = None,
                         commodity = None\<rparr>"

text \<open>
  The parts of a path under the root of its account type, as \<open>insert_root\<close> leaves
  them, with the absent root of ROOT left out.
\<close>

definition rooted :: "pystr option \<Rightarrow> pystr list \<Rightarrow> pystr list" where
  "rooted acc_type segs =
     (case acc_type of
        None \<Rightarrow> segs
      | Some r \<Rightarrow> if hd segs = r then segs else r # segs)"

text \<open>The parts that \<open>account_name\<close> joins: capitalized, the empty ones dropped.\<close>

definition name_parts :: "unicode_db \<Rightarrow> pystr option \<Rightarrow> pystr \<Rightarrow> pystr list" where
  "name_parts U acc_type path =
     map (capitalize U) (filter (\<lambda>p. p \<noteq> [])
       (rooted acc_type (split_on ACCOUNT_SEP (sanitized U path))))"

section \<open>Properties of the price of a posting\<close>

lemma dec_div_zero_by_zero:
  "is_zero y \<Longrightarrow> is_zero x \<Longrightarrow> dec_div x y = Inl InvalidOperation"
  by (simp add: dec_div_def is_zero_def)

lemma dec_div_nonzero_by_zero:
  "is_zero y \<Longrightarrow> \<not> is_zero x \<Longrightarrow> dec_div x y = Inl DivisionByZero"
  by (simp add: dec_div_def is_zero_def)

lemma dec_div_defined:
  "\<not> is_zero y \<Longrightarrow> \<exists>q. dec_div x y = Inr q"
  by (simp add: dec_div_def is_zero_def Let_def split: prod.split)

lemma differs_euro: "commodity (account (split_of euro_account q v))
    \<noteq> Some (currency (transaction (split_of euro_account q v)))"
  by (simp add: split_of_def euro_account_def rent_txn_def USD_def EUR_def)

text \<open>
  C5. A split in a foreign commodity whose quantity and value are both zero gets the
  price zero in the currency of its transaction: the indeterminate form 0/0 raises
  InvalidOperation, which \<open>price_for\<close> catches and replaces by \<open>Decimal('0')\<close>.
\<close>

theorem price_for_zero_zero:
  assumes "commodity (account s) \<noteq> Some (currency (transaction s))"
    and "is_zero (quantity s)" and "is_zero (value s)"
  shows "price_for s =
    Inr (Some \<lparr>number = Decimal False 0 0,
               amount_currency = mnemonic (currency (transaction s))\<rparr>)"
  using assms by (simp add: price_for_def bind_def dec_div_zero_by_zero)

theorem price_for_zero_zero_witness:
  "price_for (split_of euro_account (Decimal False 0 0) (Decimal True 0 (- 2))) =
    Inr (Some \<lparr>number = Decimal False 0 0,
               amount_currency = mnemonic (currency (transaction
                 (split_of euro_account (Decimal False 0 0) (Decimal True 0 (- 2)))))\<rparr>)"
proof -
  have q: "is_zero (quantity (split_of euro_account (Decimal False 0 0) (Decimal True 0 (- 2))))"
    by (simp add: split_of_def is_zero_def)
  have v: "is_zero (value (split_of euro_account (Decimal False 0 0) (Decimal True 0 (- 2))))"
    by (simp add: split_of_def is_zero_def)
  show ?thesis
    by (rule price_for_zero_zero [OF differs_euro q v])
qed

text \<open>
  C1. The claim is that a foreign-commodity split with quantity zero and a value that is
  not zero makes \<open>price_for\<close> raise. It does not: the division raises DivisionByZero,
  the \<open>except\<close> clause names that exception, the quantity is zero, and the price
  becomes \<open>Decimal('0')\<close>. Below, 5 USD for 0 EUR.
\<close>

theorem price_for_zero_quantity_counterexample:
  "commodity (account (split_of euro_account (Decimal False 0 0) (Decimal False 5 0)))
     \<noteq> Some (currency (transaction (split_of euro_account (Decimal False 0 0) (Decimal False 5 0))))
   \<and> is_zero (quantity (split_of euro_account (Decimal False 0 0) (Decimal False 5 0)))
   \<and> \<not> is_zero (value (split_of euro_account (Decimal False 0 0) (Decimal False 5 0)))
   \<and> price_for (split_of euro_account (Decimal False 0 0) (Decimal False 5 0)) =
       Inr (Some \<lparr>number = Decimal False 0 0, amount_currency = str ''USD''\<rparr>)
   \<and> \<not> isl (price_for (split_of euro_account (Decimal False 0 0) (Decimal False 5 0)))"
  by (simp add: price_for_def bind_def dec_div_def is_zero_def split_of_def euro_account_def
      rent_txn_def USD_def EUR_def)

text \<open>
  C1, as the code has it: such a split gets the price zero in the currency of its
  transaction, like the split whose value is zero too.
\<close>

theorem price_for_zero_quantity_nonzero_value:
  assumes "commodity (account s) \<noteq> Some (currency (transaction s))"
    and "is_zero (quantity s)" and "\<not> is_zero (value s)"
  shows "price_for s =
    Inr (Some \<lparr>number = Decimal False 0 0,
               amount_currency = mnemonic (currency (transaction s))\<rparr>)"
  using assms by (simp add: price_for_def bind_def dec_div_nonzero_by_zero)

theorem price_for_zero_quantity_nonzero_value_witness:
  "price_for (split_of euro_account (Decimal False 0 0) (Decimal False 5 0)) =
    Inr (Some \<lparr>number = Decimal False 0 0,
               amount_currency = mnemonic (currency (transaction
                 (split_of euro_account (Decimal False 0 0) (Decimal False 5 0))))\<rparr>)"
proof -
  have q: "is_zero (quantity (split_of euro_account (Decimal False 0 0) (Decimal False 5 0)))"
    by (simp add: split_of_def is_zero_def)
  have v: "\<not> is_zero (value (split_of euro_account (Decimal False 0 0) (Decimal False 5 0)))"
    by (simp add: split_of_def is_zero_def)
  show ?thesis
    by (rule price_for_zero_quantity_nonzero_value [OF differs_euro q v])
qed

text \<open>
  C2. \<open>price_for\<close> returns \<open>None\<close> exactly when the commodity of the split's account is
  the currency of its transaction. Otherwise, when the quantity is not zero, the
  quotient of value and quantity exists and the price is its absolute value, in the
  currency of the transaction.
\<close>

theorem price_for_spec:
  "(price_for s = Inr None \<longleftrightarrow> commodity (account s) = Some (currency (transaction s)))
   \<and> (commodity (account s) \<noteq> Some (currency (transaction s)) \<and> \<not> is_zero (quantity s) \<longrightarrow>
        (\<exists>q. dec_div (value s) (quantity s) = Inr q
           \<and> price_for s = Inr (Some \<lparr>number = dec_abs q,
                 amount_currency = mnemonic (currency (transaction s))\<rparr>)))"
proof (intro conjI impI)
  show "price_for s = Inr None \<longleftrightarrow> commodity (account s) = Some (currency (transaction s))"
    by (auto simp: price_for_def bind_def Let_def split: sum.splits if_splits)
next
  assume h: "commodity (account s) \<noteq> Some (currency (transaction s)) \<and> \<not> is_zero (quantity s)"
  then obtain q where q: "dec_div (value s) (quantity s) = Inr q"
    using dec_div_defined by blast
  with h show "\<exists>q. dec_div (value s) (quantity s) = Inr q
      \<and> price_for s = Inr (Some \<lparr>number = dec_abs q,
            amount_currency = mnemonic (currency (transaction s))\<rparr>)"
    by (simp add: price_for_def bind_def)
qed

theorem price_for_spec_witness:
  "(price_for (split_of checking_account (Decimal True 1000 0) (Decimal True 1000 0)) = Inr None)
   \<and> price_for (split_of euro_account (Decimal True 4 0) (Decimal False 10 0)) =
        Inr (Some \<lparr>number = Decimal False 25 (- 1), amount_currency = str ''USD''\<rparr>)"
proof
  have same: "commodity (account (split_of checking_account (Decimal True 1000 0) (Decimal True 1000 0)))
      = Some (currency (transaction (split_of checking_account (Decimal True 1000 0) (Decimal True 1000 0))))"
    by (simp add: split_of_def checking_account_def rent_txn_def)
  with price_for_spec [of "split_of checking_account (Decimal True 1000 0) (Decimal True 1000 0)"]
  show "price_for (split_of checking_account (Decimal True 1000 0) (Decimal True 1000 0)) = Inr None"
    by blast
next
  let ?s = "split_of euro_account (Decimal True 4 0) (Decimal False 10 0)"
  have nz: "\<not> is_zero (quantity ?s)"
    by (simp add: split_of_def is_zero_def)
  from price_for_spec [of ?s] differs_euro nz
  obtain q where q: "dec_div (value ?s) (quantity ?s) = Inr q"
    and p: "price_for ?s = Inr (Some \<lparr>number = dec_abs q,
              amount_currency = mnemonic (currency (transaction ?s))\<rparr>)"
    by blast
  have "dec_div (value ?s) (quantity ?s) = Inr (Decimal True 25 (- 1))"
    by (simp add: split_of_def dec_div_def dec_fix_def prec_def round_half_even_def Let_def
        ndigits.simps strip_zeros.simps)
  with q have "q = Decimal True 25 (- 1)"
    by simp
  moreover have "dec_abs (Decimal True 25 (- 1)) = Decimal False 25 (- 1)"
    by (simp add: dec_abs_def dec_fix_def prec_def ndigits.simps)
  moreover have "mnemonic (currency (transaction ?s)) = str ''USD''"
    by (simp add: split_of_def rent_txn_def USD_def)
  ultimately show "price_for ?s =
      Inr (Some \<lparr>number = Decimal False 25 (- 1), amount_currency = str ''USD''\<rparr>)"
    using p by simp
qed

section \<open>Properties of the units of a posting\<close>







lemma units_for_five:
  "units_for (split_of euro_account (Decimal False 5 0) (Decimal False 6 0)) =
     Inr \<lparr>number = Decimal False 50 (- 1), amount_currency = str ''EUR''\<rparr>"
  by (simp add: units_for_def split_of_def euro_account_def EUR_def dec_mul_def dec_fix_def
      prec_def ndigits.simps)

section \<open>Splitting and joining\<close>

lemma split_on_nonempty: "split_on sep xs \<noteq> []"
  by (induction xs) (auto split: list.splits)

lemma split_on_Cons_other:
  "c \<noteq> sep \<Longrightarrow> split_on sep (c # cs) = (c # hd (split_on sep cs)) # tl (split_on sep cs)"
  using split_on_nonempty [of sep cs] by (cases "split_on sep cs") auto

lemma split_on_no_sep: "p \<in> set (split_on sep xs) \<Longrightarrow> sep \<notin> set p"
proof (induction xs arbitrary: p)
  case Nil
  then show ?case by simp
next
  case (Cons c cs)
  show ?case
  proof (cases "c = sep")
    case True
    with Cons show ?thesis by auto
  next
    case False
    obtain q qs where q: "split_on sep cs = q # qs"
      using split_on_nonempty [of sep cs] by (cases "split_on sep cs") auto
    with False Cons.prems have "p = c # q \<or> p \<in> set qs"
      by auto
    with False q Cons.IH show ?thesis
      by auto
  qed
qed

lemma split_on_chars: "p \<in> set (split_on sep xs) \<Longrightarrow> set p \<subseteq> set xs"
proof (induction xs arbitrary: p)
  case Nil
  then show ?case by simp
next
  case (Cons c cs)
  show ?case
  proof (cases "c = sep")
    case True
    with Cons show ?thesis by auto
  next
    case False
    obtain q qs where q: "split_on sep cs = q # qs"
      using split_on_nonempty [of sep cs] by (cases "split_on sep cs") auto
    with False Cons.prems have "p = c # q \<or> p \<in> set qs"
      by auto
    with q Cons.IH [of q] Cons.IH [of p] show ?thesis
      by auto
  qed
qed

lemma join_Cons: "ps \<noteq> [] \<Longrightarrow> join sep (p # ps) = p @ sep # join sep ps"
  by (cases ps) auto

lemma join_split_on: "join sep (split_on sep xs) = xs"
proof (induction xs)
  case Nil
  then show ?case by simp
next
  case (Cons c cs)
  obtain q qs where q: "split_on sep cs = q # qs"
    using split_on_nonempty [of sep cs] by (cases "split_on sep cs") auto
  show ?case
  proof (cases "c = sep")
    case True
    with Cons show ?thesis
      by (simp add: join_Cons split_on_nonempty)
  next
    case False
    with Cons q show ?thesis
      by (cases qs) auto
  qed
qed

lemma split_on_single: "sep \<notin> set p \<Longrightarrow> split_on sep p = [p]"
  by (induction p) auto

lemma split_on_append_sep:
  "sep \<notin> set p \<Longrightarrow> split_on sep (p @ sep # xs) = p # split_on sep xs"
  by (induction p) auto

lemma split_on_join:
  "ps \<noteq> [] \<Longrightarrow> \<forall>p \<in> set ps. sep \<notin> set p \<Longrightarrow> split_on sep (join sep ps) = ps"
proof (induction sep ps rule: join.induct)
  case (1 sep)
  then show ?case by simp
next
  case (2 sep p)
  then show ?case by (simp add: split_on_single)
next
  case (3 sep p q ps)
  then show ?case by (simp add: split_on_append_sep)
qed

lemma split_on_map:
  assumes "f sep = sep" and "\<And>c. c \<noteq> sep \<Longrightarrow> f c \<noteq> sep"
  shows "split_on sep (map f xs) = map (map f) (split_on sep xs)"
proof (induction xs)
  case Nil
  then show ?case by simp
next
  case (Cons c cs)
  obtain q qs where q: "split_on sep cs = q # qs"
    using split_on_nonempty [of sep cs] by (cases "split_on sep cs") auto
  show ?case
  proof (cases "c = sep")
    case True
    with Cons assms(1) show ?thesis by simp
  next
    case False
    with assms(2) have "f c \<noteq> sep" by blast
    with False Cons q show ?thesis by simp
  qed
qed


section \<open>The shape of an account name\<close>

lemma ACCOUNT_TYPES_MAP_unfold:
  "ACCOUNT_TYPES_MAP =
     [''ROOT'' \<mapsto> None,
      ''ASSET'' \<mapsto> Some (str ''Assets''), ''BANK'' \<mapsto> Some (str ''Assets''),
      ''CASH'' \<mapsto> Some (str ''Assets''), ''MUTUAL'' \<mapsto> Some (str ''Assets''),
      ''RECEIVABLE'' \<mapsto> Some (str ''Assets''), ''STOCK'' \<mapsto> Some (str ''Assets''),
      ''TRADING'' \<mapsto> Some (str ''Assets''),
      ''EQUITY'' \<mapsto> Some (str ''Equity''),
      ''EXPENSE'' \<mapsto> Some (str ''Expenses''),
      ''INCOME'' \<mapsto> Some (str ''Income''),
      ''LIABILITY'' \<mapsto> Some (str ''Liabilities''), ''CREDIT'' \<mapsto> Some (str ''Liabilities''),
      ''PAYABLE'' \<mapsto> Some (str ''Liabilities'')]"
  by (simp add: ACCOUNT_TYPES_MAP_def get_account_types_map_def ACCOUNT_TYPES_def)

lemma account_name_euro:
  "account_name ascii_db euro_account = Inr (str ''Assets:Euro-Cash'')"
  by (simp add: account_name_def euro_account_def ACCOUNT_TYPES_MAP_unfold str_def re_sub_def
      INVALID_ACCOUNT_CHARS_def is_word_def ascii_word_def ascii_db_def ACCOUNT_SEP_def
      hyphen_def insert_root_def bind_def upper_def)


lemma hyphen_not_sep: "hyphen \<noteq> ACCOUNT_SEP"
  by (simp add: hyphen_def ACCOUNT_SEP_def)

lemma sep_not_word: "\<not> is_word U ACCOUNT_SEP"
  by (simp add: is_word_def ascii_word_def ACCOUNT_SEP_def)

lemma sanitized_split:
  "split_on ACCOUNT_SEP (sanitized U path) =
     map (sanitized U) (split_on ACCOUNT_SEP path)"
proof -
  let ?f = "\<lambda>c. if INVALID_ACCOUNT_CHARS U c then hyphen else c"
  have 1: "?f ACCOUNT_SEP = ACCOUNT_SEP"
    by (simp add: INVALID_ACCOUNT_CHARS_def)
  have 2: "\<And>c. c \<noteq> ACCOUNT_SEP \<Longrightarrow> ?f c \<noteq> ACCOUNT_SEP"
    using hyphen_not_sep by simp
  have "split_on ACCOUNT_SEP (map ?f path) = map (map ?f) (split_on ACCOUNT_SEP path)"
    using 1 2 by (rule split_on_map)
  moreover have "sanitized U = map ?f"
    by (rule ext) (simp add: sanitized_def re_sub_def)
  ultimately show ?thesis by simp
qed

lemma sanitized_chars:
  "c \<in> set (sanitized U path) \<Longrightarrow> is_word U c \<or> c = ACCOUNT_SEP \<or> c = hyphen"
  by (auto simp: sanitized_def re_sub_def INVALID_ACCOUNT_CHARS_def is_word_def ascii_word_def
      split: if_splits)

lemma sanitized_segment_chars:
  assumes "p \<in> set (split_on ACCOUNT_SEP (sanitized U path))" and "c \<in> set p"
  shows "c \<noteq> ACCOUNT_SEP \<and> (is_word U c \<or> c = hyphen)"
proof -
  from assms have "c \<noteq> ACCOUNT_SEP"
    using split_on_no_sep by fastforce
  moreover from assms have "c \<in> set (sanitized U path)"
    using split_on_chars by fastforce
  ultimately show ?thesis
    using sanitized_chars by blast
qed

lemma sanitized_idem:
  "\<forall>c \<in> set s. is_word U c \<or> c = ACCOUNT_SEP \<or> c = hyphen \<Longrightarrow> sanitized U s = s"
  by (induction s) (auto simp: sanitized_def re_sub_def INVALID_ACCOUNT_CHARS_def)

lemma capitalized_Some:
  "capitalized U (map Some ps) = map (capitalize U) (filter (\<lambda>p. p \<noteq> []) ps)"
proof (induction ps)
  case Nil
  then show ?case by simp
next
  case (Cons p ps)
  then show ?case by (cases p) (simp_all add: capitalize_def)
qed

lemma account_name_parts:
  assumes "ACCOUNT_TYPES_MAP (type a) = Some acc_type"
  shows "account_name U a =
    Inr (join ACCOUNT_SEP (map (capitalize U) (filter (\<lambda>p. p \<noteq> [])
      (rooted acc_type (split_on ACCOUNT_SEP (sanitized U (fullname a)))))))"
proof -
  let ?segs = "split_on ACCOUNT_SEP (sanitized U (fullname a))"
  obtain s ss where s: "?segs = s # ss"
    using split_on_nonempty [of ACCOUNT_SEP "sanitized U (fullname a)"] by (cases ?segs) auto
  have n: "account_name U a =
      Inr (join ACCOUNT_SEP (capitalized U
        (if Some s \<noteq> acc_type then acc_type # map Some ?segs else map Some ?segs)))"
    using assms s by (simp add: account_name_def sanitized_def insert_root_def bind_def)
  show ?thesis
  proof (cases "\<exists>r. acc_type = Some r \<and> s \<noteq> r")
    case True
    then obtain r where r: "acc_type = Some r" "s \<noteq> r"
      by blast
    with s have "rooted acc_type ?segs = r # ?segs"
      by (simp add: rooted_def)
    moreover have "capitalized U (Some r # map Some ?segs) =
        map (capitalize U) (filter (\<lambda>p. p \<noteq> []) (r # ?segs))"
      using capitalized_Some [of U "r # ?segs"] by simp
    moreover from n r have "account_name U a =
        Inr (join ACCOUNT_SEP (capitalized U (Some r # map Some ?segs)))"
      by simp
    ultimately show ?thesis
      by (simp only:)
  next
    case False
    then consider "acc_type = None" | "acc_type = Some s"
      by (cases acc_type) auto
    then have "account_name U a =
        Inr (join ACCOUNT_SEP (capitalized U (map Some ?segs)))"
      using n by cases simp_all
    moreover from False s have "rooted acc_type ?segs = ?segs"
      by (cases acc_type) (auto simp: rooted_def)
    ultimately show ?thesis
      by (simp only: capitalized_Some)
  qed
qed

lemma types_map_ROOT: "ACCOUNT_TYPES_MAP ''ROOT'' = Some None"
  by (simp add: ACCOUNT_TYPES_MAP_unfold)

text \<open>
  C10. The claim is that an account of type ROOT gets a name that begins with a
  placeholder for the missing root. The \<open>None\<close> that \<open>account_name\<close> inserts is false,
  so the generator that skips the empty parts skips it too: the account Root Account
  of type ROOT is named Root-Account, one segment and no placeholder.
\<close>

theorem account_name_root_counterexample:
  "account_name ascii_db (account_of (str ''Root Account'') ''ROOT'') = Inr (str ''Root-Account'')
   \<and> split_on ACCOUNT_SEP (str ''Root-Account'') = [str ''Root-Account'']
   \<and> str ''Root-Account'' \<noteq> str ''None''"
  by (simp add: account_name_def account_of_def types_map_ROOT str_def re_sub_def
      INVALID_ACCOUNT_CHARS_def is_word_def ascii_word_def ascii_db_def ACCOUNT_SEP_def
      hyphen_def insert_root_def bind_def upper_def)

text \<open>
  C10, as the code has it: for an account of type ROOT the comparison with the root
  fails, \<open>None\<close> is inserted in front of the parts, and the name is the sanitized path
  with its empty parts dropped and its parts capitalized, with no root and no
  placeholder in front.
\<close>

theorem account_name_root:
  assumes "type a = ''ROOT''"
  shows "insert_root None (map Some (split_on ACCOUNT_SEP (sanitized U (fullname a)))) =
           Inr (None # map Some (split_on ACCOUNT_SEP (sanitized U (fullname a))))
         \<and> account_name U a =
           Inr (join ACCOUNT_SEP (map (capitalize U) (filter (\<lambda>p. p \<noteq> [])
             (split_on ACCOUNT_SEP (sanitized U (fullname a))))))"
proof
  obtain s ss where "split_on ACCOUNT_SEP (sanitized U (fullname a)) = s # ss"
    using split_on_nonempty [of ACCOUNT_SEP "sanitized U (fullname a)"]
    by (cases "split_on ACCOUNT_SEP (sanitized U (fullname a))") auto
  then show "insert_root None (map Some (split_on ACCOUNT_SEP (sanitized U (fullname a)))) =
      Inr (None # map Some (split_on ACCOUNT_SEP (sanitized U (fullname a))))"
    by (simp add: insert_root_def)
next
  from assms have "ACCOUNT_TYPES_MAP (type a) = Some None"
    by (simp add: types_map_ROOT)
  then show "account_name U a =
      Inr (join ACCOUNT_SEP (map (capitalize U) (filter (\<lambda>p. p \<noteq> [])
        (split_on ACCOUNT_SEP (sanitized U (fullname a))))))"
    using account_name_parts [of a None U] by (simp add: rooted_def)
qed

theorem account_name_root_witness:
  "insert_root None (map Some (split_on ACCOUNT_SEP
       (sanitized ascii_db (fullname (account_of (str ''Root Account'') ''ROOT''))))) =
     Inr (None # map Some (split_on ACCOUNT_SEP
       (sanitized ascii_db (fullname (account_of (str ''Root Account'') ''ROOT'')))))
   \<and> account_name ascii_db (account_of (str ''Root Account'') ''ROOT'') =
     Inr (join ACCOUNT_SEP (map (capitalize ascii_db) (filter (\<lambda>p. p \<noteq> [])
       (split_on ACCOUNT_SEP
         (sanitized ascii_db (fullname (account_of (str ''Root Account'') ''ROOT'')))))))"
proof -
  have t: "type (account_of (str ''Root Account'') ''ROOT'') = ''ROOT''"
    by (simp add: account_of_def)
  show ?thesis
    by (rule account_name_root [OF t])
qed

lemma types_map_categories:
  "t \<in> set account_categories \<Longrightarrow> \<exists>r. r \<in> set roots \<and> ACCOUNT_TYPES_MAP t = Some (Some r)"
  by (auto simp: account_categories_def roots_def ACCOUNT_TYPES_MAP_unfold)

lemma types_map_values: "ACCOUNT_TYPES_MAP t = Some (Some r) \<Longrightarrow> r \<in> set roots"
  by (auto simp: ACCOUNT_TYPES_MAP_unfold roots_def split: if_splits)

lemma root_facts:
  assumes "r \<in> set roots"
  shows "r \<noteq> []" and "ACCOUNT_SEP \<notin> set r" and "capitalize U r = r"
    and "\<forall>c \<in> set r. is_word U c" and "upper U (hd r) = [hd r]"
  using assms
  by (auto simp: roots_def str_def capitalize_def upper_def is_word_def ascii_word_def
      ACCOUNT_SEP_def)

lemma upper_first_char:
  assumes "upper_wellformed U" and "is_word U c \<or> c = hyphen" and "c \<noteq> ACCOUNT_SEP"
  shows "upper U c \<noteq> [] \<and> ACCOUNT_SEP \<notin> set (upper U c)
    \<and> upper U (hd (upper U c)) = [hd (upper U c)]"
proof (cases "c < 128")
  case True
  with assms(3) show ?thesis
    by (auto simp: upper_def ACCOUNT_SEP_def)
next
  case False
  with assms(2) have "uni_word U c" and "128 \<le> c"
    by (auto simp: is_word_def hyphen_def)
  with assms(1) have "uni_upper U c \<noteq> [] \<and> ACCOUNT_SEP \<notin> set (uni_upper U c)
      \<and> upper U (hd (uni_upper U c)) = [hd (uni_upper U c)]"
    unfolding upper_wellformed_def by blast
  moreover from False have "upper U c = uni_upper U c"
    by (simp add: upper_def)
  ultimately show ?thesis by simp
qed


lemma rooted_parts:
  assumes "acc_type = None \<or> (\<exists>r \<in> set roots. acc_type = Some r)"
    and "p \<in> set (rooted acc_type (split_on ACCOUNT_SEP (sanitized U path)))"
    and "c \<in> set p"
  shows "c \<noteq> ACCOUNT_SEP \<and> (is_word U c \<or> c = hyphen)"
proof (cases "p \<in> set (split_on ACCOUNT_SEP (sanitized U path))")
  case True
  then show ?thesis
    using assms(3) by (rule sanitized_segment_chars)
next
  case False
  with assms(1,2) have "p \<in> set roots"
    by (auto simp: rooted_def split: if_splits)
  with assms(3) root_facts(2) [of p] root_facts(4) [of p U] show ?thesis
    by auto
qed

lemma capitalize_part:
  assumes "upper_wellformed U" and "p \<noteq> []"
    and "\<forall>c \<in> set p. c \<noteq> ACCOUNT_SEP \<and> (is_word U c \<or> c = hyphen)"
  shows "capitalize U p \<noteq> [] \<and> ACCOUNT_SEP \<notin> set (capitalize U p)
    \<and> upper U (hd (capitalize U p)) = [hd (capitalize U p)]"
proof -
  from assms(2) obtain c cs where p: "p = c # cs"
    by (cases p) auto
  with assms(3) have "is_word U c \<or> c = hyphen" and "c \<noteq> ACCOUNT_SEP"
    and "ACCOUNT_SEP \<notin> set cs"
    by auto
  with upper_first_char [OF assms(1), of c] p show ?thesis
    by (auto simp: capitalize_def)
qed


lemma rooted_head:
  assumes "r \<noteq> []" and "segs \<noteq> []"
  shows "\<exists>rest. filter (\<lambda>p. p \<noteq> []) (rooted (Some r) segs) = r # rest"
proof (cases "hd segs = r")
  case True
  with assms obtain ss where "segs = r # ss"
    by (cases segs) auto
  with assms(1) show ?thesis
    by (simp add: rooted_def)
next
  case False
  with assms(1) show ?thesis
    by (simp add: rooted_def)
qed

lemma account_name_name_parts:
  "ACCOUNT_TYPES_MAP (type a) = Some acc_type \<Longrightarrow>
     account_name U a = Inr (join ACCOUNT_SEP (name_parts U acc_type (fullname a)))"
  unfolding name_parts_def by (rule account_name_parts)


lemma name_parts_wellformed:
  assumes "upper_wellformed U"
    and "acc_type = None \<or> (\<exists>r \<in> set roots. acc_type = Some r)"
    and "q \<in> set (name_parts U acc_type path)"
  shows "q \<noteq> [] \<and> ACCOUNT_SEP \<notin> set q \<and> upper U (hd q) = [hd q]"
proof -
  from assms(3) obtain p where p: "p \<in> set (rooted acc_type (split_on ACCOUNT_SEP (sanitized U path)))"
    and ne: "p \<noteq> []" and q: "q = capitalize U p"
    by (auto simp: name_parts_def)
  have "\<forall>c \<in> set p. c \<noteq> ACCOUNT_SEP \<and> (is_word U c \<or> c = hyphen)"
  proof
    fix c
    assume "c \<in> set p"
    with assms(2) p show "c \<noteq> ACCOUNT_SEP \<and> (is_word U c \<or> c = hyphen)"
      by (rule rooted_parts)
  qed
  with assms(1) ne show ?thesis
    unfolding q by (rule capitalize_part)
qed


lemma name_parts_head:
  assumes "r \<in> set roots"
  shows "\<exists>rest. name_parts U (Some r) path = r # rest"
proof -
  from assms have "r \<noteq> []"
    by (rule root_facts(1))
  then obtain rest where
    "filter (\<lambda>p. p \<noteq> []) (rooted (Some r) (split_on ACCOUNT_SEP (sanitized U path))) = r # rest"
    using rooted_head [OF _ split_on_nonempty, of r ACCOUNT_SEP "sanitized U path"] by auto
  with root_facts(3) [OF assms, of U] show ?thesis
    by (simp add: name_parts_def)
qed

lemma name_parts_split:
  assumes "upper_wellformed U" and "r \<in> set roots"
  shows "split_on ACCOUNT_SEP (join ACCOUNT_SEP (name_parts U (Some r) path)) =
    name_parts U (Some r) path"
proof (rule split_on_join)
  show "name_parts U (Some r) path \<noteq> []"
    using name_parts_head [OF assms(2), of U path] by auto
  have "Some r = None \<or> (\<exists>r' \<in> set roots. Some r = Some r')"
    using assms(2) by simp
  then show "\<forall>p \<in> set (name_parts U (Some r) path). ACCOUNT_SEP \<notin> set p"
    using name_parts_wellformed [OF assms(1), of "Some r" _ path] by simp
qed

section \<open>Properties of account names\<close>

lemma ascii_db_wellformed: "upper_wellformed ascii_db"
  by (simp add: upper_wellformed_def ascii_db_def)


lemma euro_account_category: "type euro_account \<in> set account_categories"
  by (simp add: euro_account_def account_categories_def)

text \<open>
  C3. The claim is that the name of an account of one of the thirteen types starts with
  one of the five roots and that the first character of each of its segments is upper
  case. The roots are there, but \<open>upper()\<close> leaves a character without case as it is:
  the account 1st bank of type CREDIT is named Liabilities:1st-bank, whose second
  segment starts with the digit 1, which is no upper-case character.
\<close>

theorem account_name_upper_counterexample:
  "account_name ascii_db (account_of (str ''1st bank'') ''CREDIT'') =
     Inr (str ''Liabilities:1st-bank'')
   \<and> split_on ACCOUNT_SEP (str ''Liabilities:1st-bank'') =
       [str ''Liabilities'', str ''1st-bank'']
   \<and> \<not> ascii_upper_case (hd (str ''1st-bank''))"
  by (simp add: account_name_def account_of_def ACCOUNT_TYPES_MAP_unfold str_def re_sub_def
      INVALID_ACCOUNT_CHARS_def is_word_def ascii_word_def ascii_db_def ACCOUNT_SEP_def
      hyphen_def insert_root_def bind_def upper_def ascii_upper_case_def)

text \<open>
  C3, as the code has it: for a well-formed Unicode database, the name of an account
  of one of the thirteen types starts with one of the five roots, and the first
  character of each of its segments is its own upper-case form: an upper-case letter,
  or a character that upper-casing leaves alone, such as a digit, a hyphen or an
  underscore.
\<close>

theorem account_name_rooted:
  assumes "upper_wellformed U" and "type a \<in> set account_categories"
  shows "\<exists>name. account_name U a = Inr name
           \<and> hd (split_on ACCOUNT_SEP name) \<in> set roots
           \<and> list_all (\<lambda>seg. seg \<noteq> [] \<and> upper U (hd seg) = [hd seg])
               (split_on ACCOUNT_SEP name)"
proof -
  from assms(2) obtain r where r: "r \<in> set roots"
    and m: "ACCOUNT_TYPES_MAP (type a) = Some (Some r)"
    using types_map_categories by blast
  let ?ps = "name_parts U (Some r) (fullname a)"
  let ?name = "join ACCOUNT_SEP ?ps"
  have n: "account_name U a = Inr ?name"
    using m by (rule account_name_name_parts)
  have s: "split_on ACCOUNT_SEP ?name = ?ps"
    using assms(1) r by (rule name_parts_split)
  obtain rest where h: "?ps = r # rest"
    using name_parts_head [OF r] by blast
  have "Some r = None \<or> (\<exists>r' \<in> set roots. Some r = Some r')"
    using r by simp
  then have "\<forall>q \<in> set ?ps. q \<noteq> [] \<and> upper U (hd q) = [hd q]"
    using name_parts_wellformed [OF assms(1), of "Some r" _ "fullname a"] by simp
  then have "list_all (\<lambda>seg. seg \<noteq> [] \<and> upper U (hd seg) = [hd seg]) ?ps"
    by (simp add: list_all_iff)
  moreover have "hd ?ps \<in> set roots"
    using h r by simp
  ultimately show ?thesis
    using n s by simp
qed

theorem account_name_rooted_witness:
  "\<exists>name. account_name ascii_db euro_account = Inr name
     \<and> hd (split_on ACCOUNT_SEP name) \<in> set roots
     \<and> list_all (\<lambda>seg. seg \<noteq> [] \<and> upper ascii_db (hd seg) = [hd seg])
         (split_on ACCOUNT_SEP name)"
  by (rule account_name_rooted [OF ascii_db_wellformed euro_account_category])




lemma sanitized_nonempty_count:
  "length (filter (\<lambda>p. p \<noteq> []) (map (sanitized U) xs)) = length (filter (\<lambda>p. p \<noteq> []) xs)"
  by (induction xs) (auto simp: sanitized_def re_sub_def)

lemma sanitized_root: "r \<in> set roots \<Longrightarrow> sanitized U r = r"
  using root_facts(4) [of r U] by (simp add: sanitized_idem)

lemma sanitized_is_Nil: "sanitized U p = [] \<longleftrightarrow> p = []"
  by (simp add: sanitized_def re_sub_def)

text \<open>
  C7. The claim is that an account whose path already starts with the root of its type
  gets the sanitized, capitalized form of its path, with as many segments as the path.
  The empty segments of a path are dropped: the account Assets::Checking of type BANK
  has three segments, its name Assets:Checking has two, and the sanitized, capitalized
  form of the path is Assets::Checking.
\<close>

theorem account_name_same_root_counterexample:
  "ACCOUNT_TYPES_MAP (type (account_of (str ''Assets::Checking'') ''BANK'')) =
     Some (Some (hd (split_on ACCOUNT_SEP (fullname (account_of (str ''Assets::Checking'') ''BANK'')))))
   \<and> account_name ascii_db (account_of (str ''Assets::Checking'') ''BANK'') =
       Inr (str ''Assets:Checking'')
   \<and> normalized_path ascii_db (str ''Assets::Checking'') = str ''Assets::Checking''
   \<and> length (split_on ACCOUNT_SEP (str ''Assets:Checking'')) = 2
   \<and> length (split_on ACCOUNT_SEP (str ''Assets::Checking'')) = 3"
  by (simp add: account_name_def account_of_def ACCOUNT_TYPES_MAP_unfold str_def re_sub_def
      INVALID_ACCOUNT_CHARS_def is_word_def ascii_word_def ascii_db_def ACCOUNT_SEP_def
      hyphen_def insert_root_def bind_def upper_def normalized_path_def sanitized_def
      capitalize_def)

text \<open>
  C7, as the code has it: for a well-formed Unicode database, an account whose path
  starts with the root of its type gets the sanitized, capitalized form of its path
  without the empty segments, and the name has as many segments as the path has
  segments that are not empty. When no segment of the path is empty, that is the
  sanitized, capitalized form of the path, with the same number of segments.
\<close>

theorem account_name_same_root:
  assumes "upper_wellformed U"
    and "ACCOUNT_TYPES_MAP (type a) = Some (Some r)"
    and "hd (split_on ACCOUNT_SEP (fullname a)) = r"
  shows "\<exists>name. account_name U a = Inr name
    \<and> name = join ACCOUNT_SEP (map (capitalize U) (filter (\<lambda>p. p \<noteq> [])
               (split_on ACCOUNT_SEP (sanitized U (fullname a)))))
    \<and> length (split_on ACCOUNT_SEP name) =
        length (filter (\<lambda>p. p \<noteq> []) (split_on ACCOUNT_SEP (fullname a)))
    \<and> ([] \<notin> set (split_on ACCOUNT_SEP (fullname a)) \<longrightarrow>
         name = normalized_path U (fullname a)
         \<and> length (split_on ACCOUNT_SEP name) = length (split_on ACCOUNT_SEP (fullname a)))"
proof -
  let ?path = "fullname a"
  let ?segs = "split_on ACCOUNT_SEP (sanitized U ?path)"
  let ?ps = "name_parts U (Some r) ?path"
  let ?name = "join ACCOUNT_SEP ?ps"
  from assms(2) have r: "r \<in> set roots"
    by (rule types_map_values)
  have segs: "?segs = map (sanitized U) (split_on ACCOUNT_SEP ?path)"
    by (rule sanitized_split)
  then have "hd ?segs = sanitized U (hd (split_on ACCOUNT_SEP ?path))"
    by (simp add: hd_map split_on_nonempty)
  with assms(3) r have "hd ?segs = r"
    by (simp add: sanitized_root)
  then have ps: "?ps = map (capitalize U) (filter (\<lambda>p. p \<noteq> []) ?segs)"
    by (simp add: name_parts_def rooted_def)
  have n: "account_name U a = Inr ?name"
    using assms(2) by (rule account_name_name_parts)
  have "split_on ACCOUNT_SEP ?name = ?ps"
    using assms(1) r by (rule name_parts_split)
  then have "length (split_on ACCOUNT_SEP ?name) = length (filter (\<lambda>p. p \<noteq> []) ?segs)"
    by (simp only: ps length_map)
  also have "\<dots> = length (filter (\<lambda>p. p \<noteq> []) (split_on ACCOUNT_SEP ?path))"
    by (simp only: segs sanitized_nonempty_count)
  finally have len: "length (split_on ACCOUNT_SEP ?name) =
      length (filter (\<lambda>p. p \<noteq> []) (split_on ACCOUNT_SEP ?path))" .
  have full: "?name = normalized_path U ?path
      \<and> length (split_on ACCOUNT_SEP ?name) = length (split_on ACCOUNT_SEP ?path)"
    if "[] \<notin> set (split_on ACCOUNT_SEP ?path)"
  proof -
    from that have "filter (\<lambda>p. p \<noteq> []) (split_on ACCOUNT_SEP ?path) = split_on ACCOUNT_SEP ?path"
      by (simp add: filter_id_conv) metis
    moreover from that have "filter (\<lambda>p. p \<noteq> []) ?segs = ?segs"
      unfolding segs by (simp add: filter_id_conv sanitized_is_Nil) metis
    ultimately show ?thesis
      using len ps by (simp add: normalized_path_def)
  qed
  show ?thesis
  proof (intro exI conjI impI)
    show "account_name U a = Inr ?name"
      by (rule n)
    show "?name = join ACCOUNT_SEP (map (capitalize U) (filter (\<lambda>p. p \<noteq> []) ?segs))"
      by (simp only: ps)
    show "length (split_on ACCOUNT_SEP ?name) =
        length (filter (\<lambda>p. p \<noteq> []) (split_on ACCOUNT_SEP ?path))"
      by (rule len)
    show "?name = normalized_path U ?path" if "[] \<notin> set (split_on ACCOUNT_SEP ?path)"
      using full [OF that] ..
    show "length (split_on ACCOUNT_SEP ?name) = length (split_on ACCOUNT_SEP ?path)"
      if "[] \<notin> set (split_on ACCOUNT_SEP ?path)"
      using full [OF that] ..
  qed
qed

theorem account_name_same_root_witness:
  "\<exists>name. account_name ascii_db checking_account = Inr name
    \<and> name = join ACCOUNT_SEP (map (capitalize ascii_db) (filter (\<lambda>p. p \<noteq> [])
               (split_on ACCOUNT_SEP (sanitized ascii_db (fullname checking_account)))))
    \<and> length (split_on ACCOUNT_SEP name) =
        length (filter (\<lambda>p. p \<noteq> []) (split_on ACCOUNT_SEP (fullname checking_account)))
    \<and> ([] \<notin> set (split_on ACCOUNT_SEP (fullname checking_account)) \<longrightarrow>
         name = normalized_path ascii_db (fullname checking_account)
         \<and> length (split_on ACCOUNT_SEP name) =
             length (split_on ACCOUNT_SEP (fullname checking_account)))"
proof -
  have m: "ACCOUNT_TYPES_MAP (type checking_account) = Some (Some (str ''Assets''))"
    by (simp add: checking_account_def ACCOUNT_TYPES_MAP_unfold)
  have h: "hd (split_on ACCOUNT_SEP (fullname checking_account)) = str ''Assets''"
    by (simp add: checking_account_def str_def ACCOUNT_SEP_def)
  show ?thesis
    by (rule account_name_same_root [OF ascii_db_wellformed m h])
qed

lemma account_name_checking:
  "account_name ascii_db checking_account = Inr (str ''Assets:Checking'')
   \<and> normalized_path ascii_db (fullname checking_account) = str ''Assets:Checking''"
  by (simp add: account_name_def checking_account_def ACCOUNT_TYPES_MAP_unfold str_def
      re_sub_def INVALID_ACCOUNT_CHARS_def is_word_def ascii_word_def ascii_db_def
      ACCOUNT_SEP_def hyphen_def insert_root_def bind_def upper_def normalized_path_def
      sanitized_def capitalize_def)






section \<open>Properties of the metadata\<close>

lemma dict_set_items: "set (dict_set d k v) \<subseteq> insert (k, v) (set d)"
  by (induction d k v rule: dict_set.induct) auto

lemma meta_ok_dict_set:
  assumes "meta_ok get d" and "get k = Inr (Some v)" and "v \<noteq> []"
  shows "meta_ok get (dict_set d k v)"
  using assms dict_set_items [of d k v]
  by (auto simp: meta_ok_def list_all_iff)

lemma meta_items_sound:
  "meta_items get ks d = Inr d' \<Longrightarrow> meta_ok get d \<Longrightarrow> meta_ok get d'"
proof (induction ks arbitrary: d)
  case Nil
  then show ?case by simp
next
  case (Cons k ks)
  from Cons.prems(1) obtain v where v: "get k = Inr v"
    and rest: "meta_items get ks (if truthy v then dict_set d k (the v) else d) = Inr d'"
    by (auto simp: bind_def split: sum.splits)
  have "meta_ok get (if truthy v then dict_set d k (the v) else d)"
  proof (cases "truthy v")
    case True
    then obtain s where "v = Some s" and "s \<noteq> []"
      by (auto simp: truthy_def split: option.splits)
    with v Cons.prems(2) True show ?thesis
      by (simp add: meta_ok_dict_set)
  next
    case False
    with Cons.prems(2) show ?thesis by simp
  qed
  with Cons.IH rest show ?case by blast
qed

lemma meta_from_sound: "meta_from get fs = Inr d \<Longrightarrow> meta_ok get d"
  unfolding meta_from_def
  by (erule meta_items_sound) (simp add: meta_ok_def)

lemma Commodity_meta:
  "\<exists>d. Commodity c dt = Inr d \<and> meta_from (commodity_getattr c) ''fullname'' = Inr (commodity_meta d)"
  by (simp add: Commodity_def meta_from_def commodity_getattr_def bind_def)

lemma Transaction_meta:
  "\<exists>d. Transaction t ps = Inr d \<and> meta_from (txn_getattr t) ''num notes'' = Inr (txn_meta d)"
  by (simp add: Transaction_def meta_from_def txn_getattr_def bind_def)

lemma Open_meta:
  "Open U a dt = Inr d \<Longrightarrow> meta_from (account_getattr a) ''code description'' = Inr (open_meta d)"
  by (auto simp: Open_def bind_def split: sum.splits)

lemma Posting_meta:
  "Posting U s = Inr p \<Longrightarrow> meta_from (split_getattr s) ''memo'' = Inr (posting_meta p)"
  by (auto simp: Posting_def bind_def split: sum.splits)

lemma account_name_returns:
  assumes "type a \<in> set (''ROOT'' # account_categories)"
  shows "\<exists>name. account_name U a = Inr name"
proof -
  from assms obtain acc_type where "ACCOUNT_TYPES_MAP (type a) = Some acc_type"
    using types_map_categories types_map_ROOT by auto
  then show ?thesis
    using account_name_name_parts by blast
qed

lemma price_for_returns: "\<exists>pr. price_for s = Inr pr"
proof (cases "is_zero (quantity s)")
  case True
  then show ?thesis
    by (cases "is_zero (value s)")
      (simp_all add: price_for_def bind_def Let_def dec_div_zero_by_zero
        dec_div_nonzero_by_zero)
next
  case False
  then obtain q where "dec_div (value s) (quantity s) = Inr q"
    using dec_div_defined by blast
  then show ?thesis
    by (simp add: price_for_def bind_def Let_def)
qed

lemma Open_returns:
  assumes "type a \<in> set (''ROOT'' # account_categories)"
  shows "\<exists>od. Open U a dt = Inr od"
proof -
  obtain name where "account_name U a = Inr name"
    using account_name_returns [OF assms] by blast
  then show ?thesis
    by (simp add: Open_def meta_from_def account_getattr_def bind_def)
qed

lemma Posting_returns:
  assumes "type (account s) \<in> set (''ROOT'' # account_categories)"
    and "commodity (account s) \<noteq> None"
  shows "\<exists>p. Posting U s = Inr p"
proof -
  obtain name where n: "account_name U (account s) = Inr name"
    using account_name_returns [OF assms(1)] by blast
  obtain pr where p: "price_for s = Inr pr"
    using price_for_returns by blast
  from assms(2) obtain u where u: "units_for s = Inr u"
    by (auto simp: units_for_def)
  show ?thesis
    by (simp add: Posting_def meta_from_def split_getattr_def bind_def n p u)
qed

text \<open>
  C9. The metadata of a directive holds an attribute of its source only with the
  value of that attribute, and only when that value is a string that is not empty:
  for the Open of an account, the Commodity of a commodity, the Posting of a split and
  the Transaction of a transaction. Commodity and Transaction always return a
  directive, Open does for an account of a known type, and Posting does for a split
  whose account has a known type and a commodity.
\<close>

theorem metadata_only_nonempty:
  "(type a \<in> set (''ROOT'' # account_categories) \<longrightarrow> (\<exists>od. Open U a dt = Inr od))
   \<and> (Open U a dt = Inr od \<longrightarrow> meta_ok (account_getattr a) (open_meta od))
   \<and> (\<exists>cd. Commodity c dt = Inr cd \<and> meta_ok (commodity_getattr c) (commodity_meta cd))
   \<and> (type (account s) \<in> set (''ROOT'' # account_categories) \<and> commodity (account s) \<noteq> None
        \<longrightarrow> (\<exists>p. Posting U s = Inr p))
   \<and> (Posting U s = Inr p \<longrightarrow> meta_ok (split_getattr s) (posting_meta p))
   \<and> (\<exists>td. Transaction t ps = Inr td \<and> meta_ok (txn_getattr t) (txn_meta td))"
proof (intro conjI impI)
  assume "type a \<in> set (''ROOT'' # account_categories)"
  then show "\<exists>od. Open U a dt = Inr od"
    by (rule Open_returns)
next
  assume "Open U a dt = Inr od"
  then show "meta_ok (account_getattr a) (open_meta od)"
    by (blast intro: meta_from_sound dest: Open_meta)
next
  show "\<exists>cd. Commodity c dt = Inr cd \<and> meta_ok (commodity_getattr c) (commodity_meta cd)"
    using Commodity_meta [of c dt] by (blast intro: meta_from_sound)
next
  assume "type (account s) \<in> set (''ROOT'' # account_categories) \<and> commodity (account s) \<noteq> None"
  then show "\<exists>p. Posting U s = Inr p"
    using Posting_returns by blast
next
  assume "Posting U s = Inr p"
  then show "meta_ok (split_getattr s) (posting_meta p)"
    by (blast intro: meta_from_sound dest: Posting_meta)
next
  show "\<exists>td. Transaction t ps = Inr td \<and> meta_ok (txn_getattr t) (txn_meta td)"
    using Transaction_meta [of t ps] by (blast intro: meta_from_sound)
qed

lemma Open_euro: "Open ascii_db euro_account 20240101 = Inr euro_open"
  by (simp add: Open_def account_name_euro bind_def meta_from_def account_getattr_def
      truthy_def euro_open_def)
     (simp add: euro_account_def EUR_def str_def)

lemma Posting_memo: "Posting ascii_db memo_split = Inr memo_posting"
proof -
  have a: "account_name ascii_db (account memo_split) = Inr (str ''Assets:Euro-Cash'')"
    by (simp add: memo_split_def account_name_euro)
  have m: "meta_from (split_getattr memo_split) ''memo'' = Inr [(''memo'', str ''cash'')]"
    by (simp add: meta_from_def split_getattr_def bind_def truthy_def memo_split_def str_def)
  have u: "units_for memo_split =
      Inr \<lparr>number = Decimal False 40 (- 1), amount_currency = str ''EUR''\<rparr>"
    by (simp add: units_for_def memo_split_def euro_account_def EUR_def dec_mul_def
        dec_fix_def prec_def ndigits.simps)
  have p: "price_for memo_split =
      Inr (Some \<lparr>number = Decimal False 25 (- 1), amount_currency = str ''USD''\<rparr>)"
    by (simp add: price_for_def memo_split_def euro_account_def rent_txn_def EUR_def USD_def
        bind_def dec_div_def dec_abs_def dec_fix_def prec_def round_half_even_def Let_def
        ndigits.simps strip_zeros.simps)
  show ?thesis
    by (simp add: Posting_def a m u p bind_def memo_posting_def)
qed

theorem metadata_only_nonempty_witness:
  "Open ascii_db euro_account 20240101 = Inr euro_open
   \<and> meta_ok (account_getattr euro_account) (open_meta euro_open)
   \<and> (\<exists>cd. Commodity EUR 20240101 = Inr cd
          \<and> meta_ok (commodity_getattr EUR) (commodity_meta cd))
   \<and> Posting ascii_db memo_split = Inr memo_posting
   \<and> meta_ok (split_getattr memo_split) (posting_meta memo_posting)
   \<and> (\<exists>td. Transaction rent_txn None = Inr td
          \<and> meta_ok (txn_getattr rent_txn) (txn_meta td))"
proof -
  note th = metadata_only_nonempty [where U = ascii_db and a = euro_account
      and dt = 20240101 and od = euro_open and c = EUR and s = memo_split
      and p = memo_posting and t = rent_txn and ps = None]
  from th Open_euro have 1: "meta_ok (account_getattr euro_account) (open_meta euro_open)"
    by blast
  from th have 2: "\<exists>cd. Commodity EUR 20240101 = Inr cd
      \<and> meta_ok (commodity_getattr EUR) (commodity_meta cd)"
    by blast
  from th Posting_memo have 3: "meta_ok (split_getattr memo_split) (posting_meta memo_posting)"
    by blast
  from th have 4: "\<exists>td. Transaction rent_txn None = Inr td
      \<and> meta_ok (txn_getattr rent_txn) (txn_meta td)"
    by blast
  from Open_euro 1 2 Posting_memo 3 4 show ?thesis
    by (intro conjI)
qed

end
